theory Spec2Isabelle
  imports Main "HOL-Library.AList" "HOL-Library.Sublist"
begin

section \<open>Values, exceptions and objects\<close>

text \<open>
  The program is \<^verbatim>\<open>pyConfigFiles/base.py\<close>. Exceptions are values of \<open>pyexn\<close>;
  \<open>Raised\<close> is an exception raised by user code (a loaded file or a configuration
  function). Python values that can be bound to an attribute are modelled by
  \<open>pyval\<close>; \<open>VFun\<close> stands for an opaque callable such as a method found on the
  class. \<open>VDescr e\<close> is a data descriptor found on the class whose setter raises
  \<open>e\<close> for every value of the model: \<^verbatim>\<open>__class__\<close> and \<^verbatim>\<open>__dict__\<close>, which accept a
  class and a dictionary only (\<^verbatim>\<open>TypeError\<close>), \<^verbatim>\<open>__weakref__\<close> and a property
  without a setter (\<^verbatim>\<open>AttributeError\<close>). What the getter of a data descriptor
  returns is not modelled: a lookup that finds one yields the entry itself. A data
  descriptor whose setter accepts the value is outside the model.
\<close>

datatype pyexn =
    IOError
  | SyntaxError
  | AttributeError
  | TypeError
  | KeyError
  | Raised string

datatype pyval =
    VNone
  | VBool bool
  | VInt int
  | VStr string
  | VList "pyval list"
  | VFun string
  | VDescr pyexn

type_synonym bytes = string

text \<open>
  An instance of \<^verbatim>\<open>base\<close> (or of a class derived from it) is its instance dictionary
  together with the attributes found on its class, those inherited from
  \<^verbatim>\<open>object\<close> included. Attribute lookup consults the instance dictionary first and
  the class second; a host whose instance dictionary holds an entry under the name
  of a data descriptor of its class, which no assignment creates, is outside the
  model.
\<close>

record host =
  class_attrs :: "string \<rightharpoonup> pyval"
  inst_dict :: "string \<rightharpoonup> pyval"

definition getattr :: "host \<Rightarrow> string \<Rightarrow> pyval option" where
  "getattr self key =
     (case inst_dict self key of Some v \<Rightarrow> Some v | None \<Rightarrow> class_attrs self key)"

definition getattr_default :: "host \<Rightarrow> string \<Rightarrow> pyval \<Rightarrow> pyval" where
  "getattr_default self key d = (case getattr self key of Some v \<Rightarrow> v | None \<Rightarrow> d)"

definition hasattr :: "host \<Rightarrow> string \<Rightarrow> bool" where
  "hasattr self key = (getattr self key \<noteq> None)"

fun truthy :: "pyval \<Rightarrow> bool" where
  "truthy VNone = False"
| "truthy (VBool b) = b"
| "truthy (VInt i) = (i \<noteq> 0)"
| "truthy (VStr s) = (s \<noteq> [])"
| "truthy (VList xs) = (xs \<noteq> [])"
| "truthy (VFun f) = True"
| "truthy (VDescr e) = True"

text \<open>
  A configuration function takes the host as its sole argument and mutates it. It
  returns the host as it is when the call ends, together with the exception that
  ended the call, if any. What a configuration function does to anything but the
  host is outside the model.
\<close>

type_synonym cfun = "host \<Rightarrow> pyexn option \<times> host"

section \<open>ContentHasher: \<^verbatim>\<open>calculate_hash\<close>\<close>

text \<open>
  What the Python runtime supplies is a parameter of the model: the incremental
  digest object of \<^verbatim>\<open>hashlib\<close> (its initial state, \<^verbatim>\<open>update\<close> and
  \<^verbatim>\<open>hexdigest\<close>), the test of \<^verbatim>\<open>importlib\<close> whether a loader exists for a file
  name, and the compiler from the bytes of a file to the top-level statements of
  the unit.
\<close>

datatype stmt =
    Def cfun
  | Raise pyexn

record 's runtime =
  sha_init :: 's
  sha_update :: "'s \<Rightarrow> bytes \<Rightarrow> 's"
  sha_hexdigest :: "'s \<Rightarrow> string"
  has_loader :: "string \<Rightarrow> bool"
  py_compile :: "bytes \<Rightarrow> pyexn + stmt list"

text \<open>
  The process-wide state: the file system, the registry \<^verbatim>\<open>l\<close> and
  \<^verbatim>\<open>sys.modules\<close> (a loaded unit is identified by the path it came from).
\<close>

record world =
  files :: "string \<rightharpoonup> bytes"
  l :: "cfun list"
  sys_modules :: "string \<rightharpoonup> string"

text \<open>
  \<^verbatim>\<open>iter(lambda: file.read(n), b'')\<close>: the successive chunks of at most \<open>n\<close>
  bytes, up to the first empty read.
\<close>

function read_chunks :: "nat \<Rightarrow> bytes \<Rightarrow> bytes list" where
  "read_chunks n bs =
     (if take n bs = [] then [] else take n bs # read_chunks n (drop n bs))"
  by pat_completeness auto
termination
  by (relation "measure (\<lambda>(n, bs). length bs)") auto

definition hash_chunked :: "'s runtime \<Rightarrow> nat \<Rightarrow> bytes \<Rightarrow> string" where
  "hash_chunked rt n bs =
     sha_hexdigest rt
       (fold (\<lambda>chunk hash_algo. sha_update rt hash_algo chunk) (read_chunks n bs) (sha_init rt))"

definition calculate_hash :: "'s runtime \<Rightarrow> string \<Rightarrow> world \<Rightarrow> pyexn + string" where
  "calculate_hash rt file_path w =
     (case files w file_path of
        None \<Rightarrow> Inl IOError
      | Some bs \<Rightarrow> Inr (hash_chunked rt 4096 bs))"

section \<open>FunctionRegistry and Marker: \<^verbatim>\<open>add_function\<close>, \<^verbatim>\<open>configuration\<close>\<close>

definition add_function :: "string \<Rightarrow> cfun \<Rightarrow> world \<Rightarrow> world" where
  "add_function name function w = w\<lparr>l := l w @ [function]\<rparr>"

definition configuration :: "string \<Rightarrow> cfun \<Rightarrow> world \<Rightarrow> world" where
  "configuration filename func w = add_function filename func w"

section \<open>ModuleLoader: \<^verbatim>\<open>import_from_filepath\<close>\<close>

text \<open>\<^verbatim>\<open>str.split(sep)\<close> with a one-character separator.\<close>

fun py_split :: "char \<Rightarrow> string \<Rightarrow> string list" where
  "py_split sep [] = [[]]"
| "py_split sep (c # cs) =
     (if c = sep then [] # py_split sep cs
      else (case py_split sep cs of
              [] \<Rightarrow> [[c]]
            | w # ws \<Rightarrow> (c # w) # ws))"

definition module_name_of :: "string \<Rightarrow> string" where
  "module_name_of filepath =
     hd (py_split (CHR ''.'') (last (py_split (CHR ''/'') filepath)))"

text \<open>
  Executing the top-level code of a unit: a marked definition registers its
  function, a raise ends the execution.
\<close>

fun exec_module :: "string \<Rightarrow> stmt list \<Rightarrow> world \<Rightarrow> pyexn option \<times> world" where
  "exec_module filename [] w = (None, w)"
| "exec_module filename (Def func # body) w =
     exec_module filename body (configuration filename func w)"
| "exec_module filename (Raise e # body) w = (Some e, w)"

text \<open>
  \<^verbatim>\<open>spec_from_file_location\<close> returns \<^verbatim>\<open>None\<close> for a file name no loader
  accepts, and \<^verbatim>\<open>module_from_spec(None)\<close> then raises \<^verbatim>\<open>AttributeError\<close>. The
  unit is entered into \<^verbatim>\<open>sys.modules\<close> before its file is read. The loader is
  taken to compile and run the bytes the file holds when it is loaded: bytecode
  that CPython has cached under \<^verbatim>\<open>__pycache__\<close>, which it runs instead as long as
  the modification time and the size recorded with it are those of the file, is
  outside the model.
\<close>

definition import_from_filepath ::
  "'s runtime \<Rightarrow> string \<Rightarrow> world \<Rightarrow> (pyexn + cfun list) \<times> world" where
  "import_from_filepath rt filepath w0 =
     (let w1 = w0\<lparr>l := []\<rparr>;
          module_name = module_name_of filepath
      in if \<not> has_loader rt filepath then (Inl AttributeError, w1)
         else
           let w2 = w1\<lparr>sys_modules := (sys_modules w1)(module_name \<mapsto> filepath)\<rparr>
           in case files w2 filepath of
                None \<Rightarrow> (Inl IOError, w2)
              | Some src \<Rightarrow>
                  (case py_compile rt src of
                     Inl e \<Rightarrow> (Inl e, w2)
                   | Inr body \<Rightarrow>
                       (case exec_module filepath body w2 of
                          (Some e, w3) \<Rightarrow> (Inl e, w3)
                        | (None, w3) \<Rightarrow>
                            (let ret = l w3 in (Inr ret, w3\<lparr>l := []\<rparr>)))))"

section \<open>LockedObject: \<^verbatim>\<open>LockAttributesMeta\<close> and \<^verbatim>\<open>base.__setattr__\<close>\<close>

text \<open>
  \<^verbatim>\<open>super().__setattr__(key, value)\<close> is the runtime's \<^verbatim>\<open>object.__setattr__\<close>: it
  looks the name up on the class, hands the value to the setter of a data
  descriptor found there, and stores into the instance dictionary otherwise.
\<close>

definition object_setattr :: "host \<Rightarrow> string \<Rightarrow> pyval \<Rightarrow> pyexn + host" where
  "object_setattr self key v =
     (case class_attrs self key of
        Some (VDescr e) \<Rightarrow> Inl e
      | _ \<Rightarrow> Inr (self\<lparr>inst_dict := (inst_dict self)(key \<mapsto> v)\<rparr>))"

definition setattr :: "host \<Rightarrow> string \<Rightarrow> pyval \<Rightarrow> pyexn + host" where
  "setattr self key v =
     (if truthy (getattr_default self ''_locked'' (VBool False)) \<and> \<not> hasattr self key
      then Inl AttributeError
      else object_setattr self key v)"

text \<open>
  A class derived from \<^verbatim>\<open>base\<close> is given by its class-level attributes and by the
  assignments \<^verbatim>\<open>self.name = value\<close> its \<^verbatim>\<open>__init__\<close> performs, in order.
  \<^verbatim>\<open>LockAttributesMeta.__call__\<close> creates the instance, runs \<^verbatim>\<open>__init__\<close> and then
  sets \<^verbatim>\<open>_locked\<close>.
\<close>

record pyclass =
  cls_attrs :: "string \<rightharpoonup> pyval"
  init_assigns :: "(string \<times> pyval) list"



text \<open>
  The class \<^verbatim>\<open>base\<close> itself. Its attributes are the ones CPython 3.11 finds on
  it: what the class body defines (\<^verbatim>\<open>__init__\<close>, \<^verbatim>\<open>__setattr__\<close>, \<^verbatim>\<open>add_modules\<close>),
  what class creation adds (\<^verbatim>\<open>__module__\<close>, \<^verbatim>\<open>__doc__\<close>, and the descriptors
  \<^verbatim>\<open>__dict__\<close> and \<^verbatim>\<open>__weakref__\<close>), and what \<^verbatim>\<open>object\<close> supplies (the descriptor
  \<^verbatim>\<open>__class__\<close> and its methods). Its \<^verbatim>\<open>__init__\<close> performs \<^verbatim>\<open>self.__files__ = []\<close>.
\<close>

definition base_class :: pyclass where
  "base_class =
     \<lparr>cls_attrs = [''__class__'' \<mapsto> VDescr TypeError,
                   ''__delattr__'' \<mapsto> VFun ''__delattr__'',
                   ''__dict__'' \<mapsto> VDescr TypeError,
                   ''__dir__'' \<mapsto> VFun ''__dir__'',
                   ''__doc__'' \<mapsto> VNone,
                   ''__eq__'' \<mapsto> VFun ''__eq__'',
                   ''__format__'' \<mapsto> VFun ''__format__'',
                   ''__ge__'' \<mapsto> VFun ''__ge__'',
                   ''__getattribute__'' \<mapsto> VFun ''__getattribute__'',
                   ''__getstate__'' \<mapsto> VFun ''__getstate__'',
                   ''__gt__'' \<mapsto> VFun ''__gt__'',
                   ''__hash__'' \<mapsto> VFun ''__hash__'',
                   ''__init__'' \<mapsto> VFun ''__init__'',
                   ''__init_subclass__'' \<mapsto> VFun ''__init_subclass__'',
                   ''__le__'' \<mapsto> VFun ''__le__'',
                   ''__lt__'' \<mapsto> VFun ''__lt__'',
                   ''__module__'' \<mapsto> VStr ''pyConfigFiles.base'',
                   ''__ne__'' \<mapsto> VFun ''__ne__'',
                   ''__new__'' \<mapsto> VFun ''__new__'',
                   ''__reduce__'' \<mapsto> VFun ''__reduce__'',
                   ''__reduce_ex__'' \<mapsto> VFun ''__reduce_ex__'',
                   ''__repr__'' \<mapsto> VFun ''__repr__'',
                   ''__setattr__'' \<mapsto> VFun ''__setattr__'',
                   ''__sizeof__'' \<mapsto> VFun ''__sizeof__'',
                   ''__str__'' \<mapsto> VFun ''__str__'',
                   ''__subclasshook__'' \<mapsto> VFun ''__subclasshook__'',
                   ''__weakref__'' \<mapsto> VDescr AttributeError,
                   ''add_modules'' \<mapsto> VFun ''add_modules''],
      init_assigns = [(''__files__'', VList [])]\<rparr>"

section \<open>ConfigurationApplier: \<^verbatim>\<open>base.add_modules\<close>\<close>

text \<open>\<^verbatim>\<open>os.path.join(a, b)\<close> of \<^verbatim>\<open>posixpath\<close>.\<close>

definition os_path_join :: "string \<Rightarrow> string \<Rightarrow> string" where
  "os_path_join a b =
     (if b \<noteq> [] \<and> hd b = CHR ''/'' then b
      else if a = [] \<or> last a = CHR ''/'' then a @ b
      else a @ ''/'' @ b)"

text \<open>
  \<^verbatim>\<open>file_hash in self.__files__\<close>: membership in a list, the substring test on a
  string, \<^verbatim>\<open>TypeError\<close> on a value that is not a container, \<^verbatim>\<open>AttributeError\<close>
  when the attribute is missing.
\<close>

definition hash_in_files :: "string \<Rightarrow> host \<Rightarrow> pyexn + bool" where
  "hash_in_files file_hash self =
     (case getattr self ''__files__'' of
        None \<Rightarrow> Inl AttributeError
      | Some (VList xs) \<Rightarrow> Inr (VStr file_hash \<in> set xs)
      | Some (VStr s) \<Rightarrow> Inr (sublist file_hash s)
      | Some _ \<Rightarrow> Inl TypeError)"

text \<open>
  \<^verbatim>\<open>self.__files__.append(file_hash)\<close> mutates the list object in place, where
  the lookup found it: in the instance dictionary or on the class.
\<close>

definition files_append :: "string \<Rightarrow> host \<Rightarrow> pyexn + host" where
  "files_append file_hash self =
     (case inst_dict self ''__files__'' of
        Some (VList xs) \<Rightarrow>
          Inr (self\<lparr>inst_dict := (inst_dict self)(''__files__'' \<mapsto> VList (xs @ [VStr file_hash]))\<rparr>)
      | Some _ \<Rightarrow> Inl AttributeError
      | None \<Rightarrow>
          (case class_attrs self ''__files__'' of
             Some (VList xs) \<Rightarrow>
               Inr (self\<lparr>class_attrs := (class_attrs self)(''__files__'' \<mapsto> VList (xs @ [VStr file_hash]))\<rparr>)
           | _ \<Rightarrow> Inl AttributeError))"

text \<open>
  The first loop of \<^verbatim>\<open>add_modules\<close>. The dictionary \<^verbatim>\<open>fs\<close> keeps its keys in
  insertion order; storing under a key that is present replaces the value in
  place.
\<close>

fun load_loop ::
  "'s runtime \<Rightarrow> string \<Rightarrow> string list \<Rightarrow> (string \<times> cfun list) list \<Rightarrow> host \<Rightarrow> world
     \<Rightarrow> pyexn option \<times> (string \<times> cfun list) list \<times> host \<times> world" where
  "load_loop rt directory_path [] fs self w = (None, fs, self, w)"
| "load_loop rt directory_path (f # rest) fs self w =
     (let new_path = os_path_join directory_path f
      in case calculate_hash rt new_path w of
           Inl e \<Rightarrow> (Some e, fs, self, w)
         | Inr file_hash \<Rightarrow>
             (case hash_in_files file_hash self of
                Inl e \<Rightarrow> (Some e, fs, self, w)
              | Inr True \<Rightarrow> load_loop rt directory_path rest fs self w
              | Inr False \<Rightarrow>
                  (case import_from_filepath rt new_path w of
                     (Inl e, w') \<Rightarrow> (Some e, fs, self, w')
                   | (Inr ret, w') \<Rightarrow>
                       (case files_append file_hash self of
                          Inl e \<Rightarrow> (Some e, AList.update new_path ret fs, self, w')
                        | Inr self' \<Rightarrow>
                            load_loop rt directory_path rest
                              (AList.update new_path ret fs) self' w'))))"

text \<open>The second loop: \<^verbatim>\<open>for fun in fs[file]: fun(self)\<close>, inside \<^verbatim>\<open>for file in fs.keys()\<close>.\<close>

fun call_all :: "cfun list \<Rightarrow> host \<Rightarrow> pyexn option \<times> host" where
  "call_all [] self = (None, self)"
| "call_all (func # rest) self =
     (case func self of
        (Some e, self') \<Rightarrow> (Some e, self')
      | (None, self') \<Rightarrow> call_all rest self')"

fun apply_loop ::
  "(string \<times> cfun list) list \<Rightarrow> string list \<Rightarrow> host \<Rightarrow> pyexn option \<times> host" where
  "apply_loop fs [] self = (None, self)"
| "apply_loop fs (file # keys) self =
     (case map_of fs file of
        None \<Rightarrow> (Some KeyError, self)
      | Some funs \<Rightarrow>
          (case call_all funs self of
             (Some e, self') \<Rightarrow> (Some e, self')
           | (None, self') \<Rightarrow> apply_loop fs keys self'))"

definition add_modules ::
  "'s runtime \<Rightarrow> string \<Rightarrow> string list \<Rightarrow> host \<Rightarrow> world \<Rightarrow> pyexn option \<times> host \<times> world" where
  "add_modules rt directory_path fnames self w =
     (case load_loop rt directory_path fnames [] self w of
        (Some e, fs, self', w') \<Rightarrow> (Some e, self', w')
      | (None, fs, self', w') \<Rightarrow>
          (case apply_loop fs (map fst fs) self' of
             (e, self'') \<Rightarrow> (e, self'', w')))"

section \<open>Derived notions used in the statements\<close>

text \<open>
  The functions a unit registers before its execution ends, in the order of their
  definitions, and the exception that ends the execution, if any.
\<close>

fun registered :: "stmt list \<Rightarrow> cfun list" where
  "registered [] = []"
| "registered (Def func # body) = func # registered body"
| "registered (Raise e # body) = []"

fun raised :: "stmt list \<Rightarrow> pyexn option" where
  "raised [] = None"
| "raised (Def func # body) = raised body"
| "raised (Raise e # body) = Some e"

text \<open>
  The digest \<^verbatim>\<open>calculate_hash\<close> returns for a path, and the functions a load of
  the path returns, as functions of the file system alone (with a default where
  the call fails).
\<close>

definition digest_of :: "'s runtime \<Rightarrow> (string \<rightharpoonup> bytes) \<Rightarrow> string \<Rightarrow> string" where
  "digest_of rt fsys p =
     (case fsys p of None \<Rightarrow> [] | Some bs \<Rightarrow> hash_chunked rt 4096 bs)"

definition funcs_of :: "'s runtime \<Rightarrow> (string \<rightharpoonup> bytes) \<Rightarrow> string \<Rightarrow> cfun list" where
  "funcs_of rt fsys p =
     (case fsys p of
        None \<Rightarrow> []
      | Some src \<Rightarrow> (case py_compile rt src of Inl e \<Rightarrow> [] | Inr body \<Rightarrow> registered body))"

text \<open>A load of the path returns normally.\<close>

definition loads_ok :: "'s runtime \<Rightarrow> (string \<rightharpoonup> bytes) \<Rightarrow> string \<Rightarrow> bool" where
  "loads_ok rt fsys p =
     (has_loader rt p \<and>
      (case fsys p of
         None \<Rightarrow> False
       | Some src \<Rightarrow> (case py_compile rt src of Inl e \<Rightarrow> False | Inr body \<Rightarrow> raised body = None)))"

text \<open>The host with the digests \<open>ds\<close> appended to the list \<open>xs\<close> of \<^verbatim>\<open>__files__\<close>.\<close>

definition with_hashes :: "host \<Rightarrow> pyval list \<Rightarrow> string list \<Rightarrow> host" where
  "with_hashes self xs ds =
     self\<lparr>inst_dict := (inst_dict self)(''__files__'' \<mapsto> VList (xs @ map VStr ds))\<rparr>"

text \<open>A configuration function that leaves \<^verbatim>\<open>__files__\<close> as it finds it.\<close>

definition keeps_files :: "cfun \<Rightarrow> bool" where
  "keeps_files func = (\<forall>s. inst_dict (snd (func s)) ''__files__'' = inst_dict s ''__files__'')"

section \<open>A small runtime and host for the examples\<close>

text \<open>
  In the examples the digest object accumulates the bytes it is fed and its hex
  digest is the accumulated text; every file name has a loader; a source file is
  a sequence of one-byte statements: \<^verbatim>\<open>i\<close> defines a marked function that adds one
  to \<^verbatim>\<open>x\<close>, \<^verbatim>\<open>d\<close> one that doubles \<^verbatim>\<open>x\<close>, \<^verbatim>\<open>f\<close> one that raises when it is
  called, \<^verbatim>\<open>r\<close> raises while the file executes; any other byte is a syntax error.
\<close>

definition update_x :: "(int \<Rightarrow> int) \<Rightarrow> cfun" where
  "update_x g self =
     (case getattr self ''x'' of
        Some (VInt n) \<Rightarrow>
          (case setattr self ''x'' (VInt (g n)) of
             Inl e \<Rightarrow> (Some e, self)
           | Inr self' \<Rightarrow> (None, self'))
      | Some _ \<Rightarrow> (Some TypeError, self)
      | None \<Rightarrow> (Some AttributeError, self))"

definition incr_x :: cfun where
  "incr_x = update_x (\<lambda>n. n + 1)"

definition double_x :: cfun where
  "double_x = update_x (\<lambda>n. 2 * n)"

definition failing :: cfun where
  "failing self = (Some (Raised ''failed''), self)"

definition demo_stmt :: "char \<Rightarrow> stmt option" where
  "demo_stmt c =
     (if c = CHR ''i'' then Some (Def incr_x)
      else if c = CHR ''d'' then Some (Def double_x)
      else if c = CHR ''f'' then Some (Def failing)
      else if c = CHR ''r'' then Some (Raise (Raised ''boom''))
      else None)"

fun demo_compile :: "bytes \<Rightarrow> pyexn + stmt list" where
  "demo_compile [] = Inr []"
| "demo_compile (c # cs) =
     (case demo_stmt c of
        None \<Rightarrow> Inl SyntaxError
      | Some s \<Rightarrow> (case demo_compile cs of Inl e \<Rightarrow> Inl e | Inr body \<Rightarrow> Inr (s # body)))"

definition demo_rt :: "string runtime" where
  "demo_rt =
     \<lparr>sha_init = [],
      sha_update = (\<lambda>hash_algo chunk. hash_algo @ chunk),
      sha_hexdigest = (\<lambda>hash_algo. hash_algo),
      has_loader = (\<lambda>p. True),
      py_compile = demo_compile\<rparr>"


definition demo_host :: "pyval list \<Rightarrow> int \<Rightarrow> host" where
  "demo_host hashes n =
     \<lparr>class_attrs = cls_attrs base_class,
      inst_dict = [''__files__'' \<mapsto> VList hashes, ''x'' \<mapsto> VInt n, ''_locked'' \<mapsto> VBool True]\<rparr>"

definition demo_world :: world where
  "demo_world =
     \<lparr>files = [''/cfg/A.py'' \<mapsto> ''i'', ''/cfg/B.py'' \<mapsto> ''id'', ''/cfg/C.py'' \<mapsto> ''ir'',
               ''/cfg/D.py'' \<mapsto> ''fi'', ''/cfg/E.py'' \<mapsto> ''id''],
      l = [],
      sys_modules = Map.empty\<rparr>"

text \<open>
  The example world after \<^verbatim>\<open>A.py\<close> has been loaded, and that world after the bytes
  of \<^verbatim>\<open>A.py\<close> have changed (to a file of another size).
\<close>

definition loaded_world :: world where
  "loaded_world = demo_world\<lparr>sys_modules := [''A'' \<mapsto> ''/cfg/A.py'']\<rparr>"

definition changed_world :: world where
  "changed_world = loaded_world\<lparr>files := (files loaded_world)(''/cfg/A.py'' \<mapsto> ''dd'')\<rparr>"

section \<open>Facts about the loader and the two loops\<close>

lemma py_split_nonempty: "py_split sep s \<noteq> []"
  by (induction s) (auto split: list.splits)

lemma py_split_no_sep: "sep \<notin> set s \<Longrightarrow> py_split sep s = [s]"
  by (induction s) auto

lemma py_split_sep: "sep \<in> set s \<Longrightarrow> tl (py_split sep s) \<noteq> []"
proof (induction s)
  case Nil
  then show ?case by simp
next
  case (Cons c cs)
  show ?case
  proof (cases "c = sep")
    case True
    then show ?thesis by (simp add: py_split_nonempty)
  next
    case False
    then have "sep \<in> set cs" using Cons.prems by simp
    then have "tl (py_split sep cs) \<noteq> []" by (rule Cons.IH)
    then show ?thesis using False by (cases "py_split sep cs") auto
  qed
qed

lemma takeWhile_rev_snoc:
  "takeWhile P (rev cs @ [c]) = (if \<forall>x\<in>set cs. P x then (if P c then rev cs @ [c] else rev cs) else takeWhile P (rev cs))"
  by (simp add: takeWhile_append)

lemma last_py_split: "last (py_split sep s) = rev (takeWhile (\<lambda>c. c \<noteq> sep) (rev s))"
proof (induction s)
  case Nil
  then show ?case by simp
next
  case (Cons c cs)
  show ?case
  proof (cases "sep \<in> set cs")
    case True
    then have t: "tl (py_split sep cs) \<noteq> []" by (rule py_split_sep)
    then obtain w ws where ws: "py_split sep cs = w # ws" "ws \<noteq> []"
      by (cases "py_split sep cs") auto
    have "last (py_split sep (c # cs)) = last (py_split sep cs)"
      using ws by simp
    moreover have "takeWhile (\<lambda>c. c \<noteq> sep) (rev (c # cs)) = takeWhile (\<lambda>c. c \<noteq> sep) (rev cs)"
      using True by (auto simp: takeWhile_rev_snoc)
    ultimately show ?thesis using Cons.IH by simp
  next
    case False
    then have ps: "py_split sep cs = [cs]" by (rule py_split_no_sep)
    have all: "\<forall>x\<in>set cs. x \<noteq> sep" using False by auto
    show ?thesis
    proof (cases "c = sep")
      case True
      then show ?thesis using ps all by (simp add: takeWhile_rev_snoc)
    next
      case False
      then show ?thesis using ps all by (simp add: takeWhile_rev_snoc)
    qed
  qed
qed

lemma hd_py_split: "hd (py_split sep s) = takeWhile (\<lambda>c. c \<noteq> sep) s"
  by (induction s) (auto split: list.splits simp: py_split_nonempty)

lemma module_name_of_eq:
  "module_name_of p = takeWhile (\<lambda>c. c \<noteq> CHR ''.'') (rev (takeWhile (\<lambda>c. c \<noteq> CHR ''/'') (rev p)))"
  by (simp only: module_name_of_def hd_py_split last_py_split)


lemma exec_module_eq:
  "exec_module fn body w = (raised body, w\<lparr>l := l w @ registered body\<rparr>)"
proof (induction body arbitrary: w)
  case Nil
  show ?case by simp
next
  case (Cons s body)
  show ?case by (cases s) (simp_all add: Cons configuration_def add_function_def)
qed

lemma import_ok:
  assumes "loads_ok rt (files w) p"
  shows "import_from_filepath rt p w =
    (Inr (funcs_of rt (files w) p),
     w\<lparr>l := [], sys_modules := (sys_modules w)(module_name_of p \<mapsto> p)\<rparr>)"
  using assms
  by (auto simp: import_from_filepath_def loads_ok_def funcs_of_def Let_def exec_module_eq
      split: option.splits sum.splits)

lemma import_Inr:
  assumes "import_from_filepath rt p w = (Inr ret, w')"
  shows "loads_ok rt (files w) p"
  using assms
  by (auto simp: import_from_filepath_def loads_ok_def Let_def exec_module_eq
      split: option.splits sum.splits if_splits)

lemma calculate_hash_digest:
  "files w p = Some bs \<Longrightarrow> calculate_hash rt p w = Inr (digest_of rt (files w) p)"
  by (simp add: calculate_hash_def digest_of_def)

lemma update_fresh: "k \<notin> fst ` set al \<Longrightarrow> AList.update k v al = al @ [(k, v)]"
  by (induction al) auto

lemma hash_in_files_list:
  "inst_dict h ''__files__'' = Some (VList xs) \<Longrightarrow> hash_in_files d h = Inr (VStr d \<in> set xs)"
  by (simp add: hash_in_files_def getattr_def)

lemma files_append_list:
  "inst_dict h ''__files__'' = Some (VList xs) \<Longrightarrow> files_append d h = Inr (with_hashes h xs [d])"
  by (simp add: files_append_def with_hashes_def)

lemma with_hashes_dict [simp]:
  "inst_dict (with_hashes h xs ds) ''__files__'' = Some (VList (xs @ map VStr ds))"
  by (simp add: with_hashes_def)

lemma with_hashes_twice [simp]:
  "with_hashes (with_hashes h xs ds) (xs @ map VStr ds) es = with_hashes h xs (ds @ es)"
  by (simp add: with_hashes_def)

lemma with_hashes_nil: "inst_dict h ''__files__'' = Some (VList xs) \<Longrightarrow> with_hashes h xs [] = h"
  by (simp add: with_hashes_def fun_upd_idem)


lemma load_loop_missing:
  "files w (os_path_join dir f) = None \<Longrightarrow>
   load_loop rt dir (f # rest) fs h w = (Some IOError, fs, h, w)"
  by (simp add: calculate_hash_def)

lemma load_loop_skip:
  assumes "files w (os_path_join dir f) = Some bs"
    and "inst_dict h ''__files__'' = Some (VList xs)"
    and "VStr (digest_of rt (files w) (os_path_join dir f)) \<in> set xs"
  shows "load_loop rt dir (f # rest) fs h w = load_loop rt dir rest fs h w"
  using assms by (simp add: calculate_hash_digest hash_in_files_list)

lemma load_loop_load:
  assumes "files w (os_path_join dir f) = Some bs"
    and "inst_dict h ''__files__'' = Some (VList xs)"
    and "VStr (digest_of rt (files w) (os_path_join dir f)) \<notin> set xs"
    and "import_from_filepath rt (os_path_join dir f) w = (Inr ret, w1)"
  shows "load_loop rt dir (f # rest) fs h w =
    load_loop rt dir rest (AList.update (os_path_join dir f) ret fs)
      (with_hashes h xs [digest_of rt (files w) (os_path_join dir f)]) w1"
  using assms by (simp add: calculate_hash_digest hash_in_files_list files_append_list Let_def)

lemma load_loop_fail:
  assumes "files w (os_path_join dir f) = Some bs"
    and "inst_dict h ''__files__'' = Some (VList xs)"
    and "VStr (digest_of rt (files w) (os_path_join dir f)) \<notin> set xs"
    and "import_from_filepath rt (os_path_join dir f) w = (Inl e, w1)"
  shows "load_loop rt dir (f # rest) fs h w = (Some e, fs, h, w1)"
  using assms by (simp add: calculate_hash_digest hash_in_files_list)

declare load_loop.simps(2) [simp del]

declare read_chunks.simps [simp del]

lemma load_loop_success:
  assumes "inst_dict h ''__files__'' = Some (VList xs)"
    and "load_loop rt dir fnames fs h w = (None, fs', h', w')"
    and "\<forall>p\<in>fst ` set fs. VStr (digest_of rt (files w) p) \<in> set xs"
  shows "\<exists>ps. fs' = fs @ map (\<lambda>p. (p, funcs_of rt (files w) p)) ps
    \<and> subseq ps (map (os_path_join dir) fnames)
    \<and> h' = with_hashes h xs (map (digest_of rt (files w)) ps)
    \<and> distinct (map (digest_of rt (files w)) ps)
    \<and> (\<forall>p\<in>set ps. VStr (digest_of rt (files w) p) \<notin> set xs \<and> loads_ok rt (files w) p)
    \<and> (\<forall>f\<in>set fnames. files w (os_path_join dir f) \<noteq> None
          \<and> VStr (digest_of rt (files w) (os_path_join dir f))
              \<in> set (xs @ map VStr (map (digest_of rt (files w)) ps)))
    \<and> files w' = files w"
  using assms
proof (induction fnames arbitrary: fs h xs w)
  case Nil
  then show ?case by (auto simp: with_hashes_nil intro!: exI [of _ "[]"])
next
  case (Cons f rest)
  let ?p = "os_path_join dir f"
  let ?dg = "digest_of rt (files w)"
  note run = Cons.prems(2)
  obtain bs where bs: "files w ?p = Some bs"
    using run load_loop_missing [of w dir f rt rest fs h] by (cases "files w ?p") auto
  show ?case
  proof (cases "VStr (?dg ?p) \<in> set xs")
    case True
    have "load_loop rt dir rest fs h w = (None, fs', h', w')"
      using run load_loop_skip [OF bs Cons.prems(1) True] by simp
    from Cons.IH [OF Cons.prems(1) this Cons.prems(3)]
    obtain ps where ps: "fs' = fs @ map (\<lambda>p. (p, funcs_of rt (files w) p)) ps"
      "subseq ps (map (os_path_join dir) rest)"
      "h' = with_hashes h xs (map ?dg ps)"
      "distinct (map ?dg ps)"
      "\<forall>p\<in>set ps. VStr (?dg p) \<notin> set xs \<and> loads_ok rt (files w) p"
      "\<forall>f\<in>set rest. files w (os_path_join dir f) \<noteq> None
          \<and> VStr (?dg (os_path_join dir f)) \<in> set (xs @ map VStr (map ?dg ps))"
      "files w' = files w"
      by blast
    have "subseq ps (map (os_path_join dir) (f # rest))"
      using ps(2) by (simp add: list_emb_Cons)
    moreover have "\<forall>g\<in>set (f # rest). files w (os_path_join dir g) \<noteq> None
          \<and> VStr (?dg (os_path_join dir g)) \<in> set (xs @ map VStr (map ?dg ps))"
      using ps(6) bs True by simp
    ultimately show ?thesis using ps(1,3,4,5,7) by blast
  next
    case False
    obtain r w1 where imp: "import_from_filepath rt ?p w = (r, w1)"
      by (cases "import_from_filepath rt ?p w") auto
    obtain ret where r: "r = Inr ret"
      using run load_loop_fail [OF bs Cons.prems(1) False] imp by (cases r) auto
    have ok: "loads_ok rt (files w) ?p"
      using imp r import_Inr by blast
    have ret: "ret = funcs_of rt (files w) ?p" and w1: "files w1 = files w"
      using import_ok [OF ok] imp r by auto
    have fresh: "?p \<notin> fst ` set fs"
      using Cons.prems(3) False by blast
    have upd: "AList.update ?p ret fs = fs @ [(?p, ret)]"
      using fresh by (rule update_fresh)
    have rec: "load_loop rt dir rest (fs @ [(?p, ret)]) (with_hashes h xs [?dg ?p]) w1
        = (None, fs', h', w')"
      using run load_loop_load [OF bs Cons.prems(1) False, of ret w1 rest fs] imp r upd by simp
    have d1: "inst_dict (with_hashes h xs [?dg ?p]) ''__files__'' = Some (VList (xs @ [VStr (?dg ?p)]))"
      by simp
    have inv: "\<forall>q\<in>fst ` set (fs @ [(?p, ret)]). VStr (digest_of rt (files w1) q) \<in> set (xs @ [VStr (?dg ?p)])"
      using Cons.prems(3) w1 by auto
    from Cons.IH [OF d1 rec inv]
    obtain ps where ps: "fs' = (fs @ [(?p, ret)]) @ map (\<lambda>p. (p, funcs_of rt (files w) p)) ps"
      "subseq ps (map (os_path_join dir) rest)"
      "h' = with_hashes (with_hashes h xs [?dg ?p]) (xs @ [VStr (?dg ?p)]) (map ?dg ps)"
      "distinct (map ?dg ps)"
      "\<forall>p\<in>set ps. VStr (?dg p) \<notin> set (xs @ [VStr (?dg ?p)]) \<and> loads_ok rt (files w) p"
      "\<forall>f\<in>set rest. files w (os_path_join dir f) \<noteq> None
          \<and> VStr (?dg (os_path_join dir f)) \<in> set ((xs @ [VStr (?dg ?p)]) @ map VStr (map ?dg ps))"
      "files w' = files w"
      unfolding w1 by blast
    let ?ps = "?p # ps"
    have 1: "fs' = fs @ map (\<lambda>p. (p, funcs_of rt (files w) p)) ?ps"
      using ps(1) ret by simp
    have 2: "subseq ?ps (map (os_path_join dir) (f # rest))"
      using ps(2) by simp
    have 3: "h' = with_hashes h xs (map ?dg ?ps)"
      using ps(3) with_hashes_twice [of h xs "[?dg ?p]" "map ?dg ps"] by simp
    have 4: "distinct (map ?dg ?ps)"
      using ps(4,5) by auto
    have 5: "\<forall>p\<in>set ?ps. VStr (?dg p) \<notin> set xs \<and> loads_ok rt (files w) p"
      using ps(5) False ok by auto
    have 6: "\<forall>g\<in>set (f # rest). files w (os_path_join dir g) \<noteq> None
          \<and> VStr (?dg (os_path_join dir g)) \<in> set (xs @ map VStr (map ?dg ?ps))"
      using ps(6) bs by auto
    show ?thesis using 1 2 3 4 5 6 ps(7) by blast
  qed
qed

lemma call_all_append:
  "call_all (a @ b) h =
     (case call_all a h of (Some e, h') \<Rightarrow> (Some e, h') | (None, h') \<Rightarrow> call_all b h')"
  by (induction a arbitrary: h) (auto split: prod.splits option.splits)

lemma apply_loop_entries:
  assumes "distinct (map fst fs)" and "set es \<subseteq> set fs"
  shows "apply_loop fs (map fst es) h = call_all (concat (map snd es)) h"
  using assms(2)
proof (induction es arbitrary: h)
  case Nil
  show ?case by simp
next
  case (Cons e es)
  have "map_of fs (fst e) = Some (snd e)"
    using assms(1) Cons.prems by (cases e) (auto intro: map_of_is_SomeI)
  then show ?case using Cons
    by (auto simp: call_all_append split: prod.splits option.splits)
qed

lemma apply_loop_concat:
  "distinct (map fst fs) \<Longrightarrow> apply_loop fs (map fst fs) h = call_all (concat (map snd fs)) h"
  by (rule apply_loop_entries) auto

lemma load_loop_append:
  "load_loop rt dir (pre @ post) fs h w =
     (case load_loop rt dir pre fs h w of
        (Some e, st) \<Rightarrow> (Some e, st)
      | (None, fs1, h1, w1) \<Rightarrow> load_loop rt dir post fs1 h1 w1)"
  by (induction pre arbitrary: fs h w)
     (auto simp: load_loop.simps(2) Let_def split: sum.splits bool.splits prod.splits option.splits)

lemma load_loop_skip_all:
  assumes "inst_dict h ''__files__'' = Some (VList xs)"
    and "\<forall>f\<in>set fnames. files w (os_path_join dir f) \<noteq> None
          \<and> VStr (digest_of rt (files w) (os_path_join dir f)) \<in> set xs"
  shows "load_loop rt dir fnames fs h w = (None, fs, h, w)"
  using assms(2)
proof (induction fnames)
  case Nil
  show ?case by simp
next
  case (Cons f rest)
  then obtain bs where bs: "files w (os_path_join dir f) = Some bs" by auto
  have "VStr (digest_of rt (files w) (os_path_join dir f)) \<in> set xs" using Cons.prems by simp
  from load_loop_skip [OF bs assms(1) this] show ?case using Cons by simp
qed

lemma call_all_keeps_files:
  assumes "\<forall>func\<in>set funs. keeps_files func"
  shows "inst_dict (snd (call_all funs h)) ''__files__'' = inst_dict h ''__files__''"
  using assms
proof (induction funs arbitrary: h)
  case Nil
  show ?case by simp
next
  case (Cons func funs)
  have k: "inst_dict (snd (func h)) ''__files__'' = inst_dict h ''__files__''"
    using Cons.prems by (simp add: keeps_files_def)
  show ?case
  proof (cases "func h")
    case (Pair r h1)
    then show ?thesis using k Cons by (cases r) auto
  qed
qed

lemma add_modules_skip_all:
  assumes "inst_dict h ''__files__'' = Some (VList xs)"
    and "\<forall>f\<in>set fnames. files w (os_path_join dir f) \<noteq> None
          \<and> VStr (digest_of rt (files w) (os_path_join dir f)) \<in> set xs"
  shows "add_modules rt dir fnames h w = (None, h, w)"
  by (simp add: add_modules_def load_loop_skip_all [OF assms])

lemma add_modules_loaded:
  assumes "inst_dict h ''__files__'' = Some (VList xs)"
    and "load_loop rt dir fnames [] h w = (None, fs, h1, w1)"
  shows "add_modules rt dir fnames h w =
    (case call_all (concat (map snd fs)) h1 of (e, h2) \<Rightarrow> (e, h2, w1))"
proof -
  from load_loop_success [OF assms(1) assms(2)]
  obtain ps where ps: "fs = map (\<lambda>p. (p, funcs_of rt (files w) p)) ps"
    "distinct (map (digest_of rt (files w)) ps)"
    by auto
  have "distinct ps" using ps(2) by (simp add: distinct_map)
  then have "distinct (map fst fs)" using ps(1) by (simp add: comp_def)
  then show ?thesis using assms(2) by (simp add: add_modules_def apply_loop_concat)
qed









lemma read_chunks_concat: "0 < n \<Longrightarrow> concat (read_chunks n bs) = bs"
proof (induction n bs rule: read_chunks.induct)
  case (1 n bs)
  show ?case
  proof (cases "take n bs = []")
    case True
    then show ?thesis using "1.prems" by (subst read_chunks.simps) auto
  next
    case False
    then show ?thesis using 1 by (subst read_chunks.simps) simp
  qed
qed

lemma fold_update_stream:
  assumes law: "\<And>s a b. upd (upd s a) b = upd s (a @ b)"
  shows "fold (\<lambda>c s. upd s c) cs (upd s a) = upd s (a @ concat cs)"
proof (induction cs arbitrary: a)
  case Nil
  show ?case by simp
next
  case (Cons c cs)
  show ?case by (simp add: law Cons)
qed

lemma hash_chunked_stream:
  assumes law: "\<And>s a b. sha_update rt (sha_update rt s a) b = sha_update rt s (a @ b)"
    and n: "0 < n"
  shows "hash_chunked rt n bs =
    sha_hexdigest rt (if bs = [] then sha_init rt else sha_update rt (sha_init rt) bs)"
proof (cases "bs = []")
  case True
  then show ?thesis by (simp add: hash_chunked_def read_chunks.simps)
next
  case False
  then have tk: "take n bs \<noteq> []" using n by auto
  have rc: "read_chunks n bs = take n bs # read_chunks n (drop n bs)"
    using tk by (subst read_chunks.simps) simp
  have "fold (\<lambda>c s. sha_update rt s c) (read_chunks n bs) (sha_init rt)
      = sha_update rt (sha_init rt) (take n bs @ concat (read_chunks n (drop n bs)))"
    unfolding rc using fold_update_stream [of "sha_update rt", OF law] by simp
  also have "take n bs @ concat (read_chunks n (drop n bs)) = bs"
    using read_chunks_concat [OF n, of "drop n bs"] by simp
  finally show ?thesis using False by (simp add: hash_chunked_def)
qed

lemma add_modules_fresh_single:
  assumes "inst_dict h ''__files__'' = Some (VList xs)"
    and "files w (os_path_join dir f) = Some bs"
    and "VStr (digest_of rt (files w) (os_path_join dir f)) \<notin> set xs"
    and "loads_ok rt (files w) (os_path_join dir f)"
  shows "add_modules rt dir [f] h w =
    (case call_all (funcs_of rt (files w) (os_path_join dir f))
            (with_hashes h xs [digest_of rt (files w) (os_path_join dir f)]) of
       (e, h2) \<Rightarrow>
         (e, h2, w\<lparr>l := [], sys_modules :=
            (sys_modules w)(module_name_of (os_path_join dir f) \<mapsto> os_path_join dir f)\<rparr>))"
  using load_loop_load [OF assms(2) assms(1) assms(3) import_ok [OF assms(4)], of "[]" "[]"]
  by (simp add: add_modules_def split: prod.splits option.splits)

lemma demo_hash: "hash_chunked demo_rt 4096 bs = (if bs = [] then [] else bs)"
proof -
  have "\<And>s a b. sha_update demo_rt (sha_update demo_rt s a) b = sha_update demo_rt s (a @ b)"
    by (simp add: demo_rt_def)
  from hash_chunked_stream [of demo_rt 4096 bs, OF this] show ?thesis
    by (simp add: demo_rt_def)
qed

lemma demo_rt_sel: "has_loader demo_rt p" "py_compile demo_rt = demo_compile"
  by (simp_all add: demo_rt_def)

lemmas demo_eval = add_modules_def load_loop.simps Let_def os_path_join_def calculate_hash_def
  demo_world_def demo_hash demo_rt_sel hash_in_files_def files_append_def getattr_def
  demo_host_def import_from_filepath_def module_name_of_def exec_module_eq demo_stmt_def
  update_x_def incr_x_def double_x_def setattr_def object_setattr_def hasattr_def
  getattr_default_def failing_def base_class_def

lemma load_loop_success_nil:
  assumes "inst_dict h ''__files__'' = Some (VList xs)"
    and "load_loop rt dir fnames [] h w = (None, fs, h1, w1)"
  shows "subseq (map fst fs) (map (os_path_join dir) fnames)"
    and "distinct (map fst fs)"
    and "\<forall>(p, funs)\<in>set fs. funs = funcs_of rt (files w) p \<and> loads_ok rt (files w) p
           \<and> VStr (digest_of rt (files w) p) \<notin> set xs"
    and "h1 = with_hashes h xs (map (digest_of rt (files w)) (map fst fs))"
    and "\<forall>f\<in>set fnames. files w (os_path_join dir f) \<noteq> None
          \<and> VStr (digest_of rt (files w) (os_path_join dir f))
              \<in> set (xs @ map VStr (map (digest_of rt (files w)) (map fst fs)))"
    and "files w1 = files w"
    and "distinct (map (digest_of rt (files w)) (map fst fs))"
proof -
  from load_loop_success [OF assms(1) assms(2)]
  obtain ps where ps: "fs = map (\<lambda>p. (p, funcs_of rt (files w) p)) ps"
    "subseq ps (map (os_path_join dir) fnames)"
    "h1 = with_hashes h xs (map (digest_of rt (files w)) ps)"
    "distinct (map (digest_of rt (files w)) ps)"
    "\<forall>p\<in>set ps. VStr (digest_of rt (files w) p) \<notin> set xs \<and> loads_ok rt (files w) p"
    "\<forall>f\<in>set fnames. files w (os_path_join dir f) \<noteq> None
          \<and> VStr (digest_of rt (files w) (os_path_join dir f))
              \<in> set (xs @ map VStr (map (digest_of rt (files w)) ps))"
    "files w1 = files w"
    by auto
  have m: "map fst fs = ps" using ps(1) by (simp add: comp_def)
  show "subseq (map fst fs) (map (os_path_join dir) fnames)" using ps(2) m by simp
  show "distinct (map fst fs)" using ps(4) m by (simp add: distinct_map)
  show "\<forall>(p, funs)\<in>set fs. funs = funcs_of rt (files w) p \<and> loads_ok rt (files w) p
           \<and> VStr (digest_of rt (files w) p) \<notin> set xs"
    using ps(1) ps(5) by auto
  show "h1 = with_hashes h xs (map (digest_of rt (files w)) (map fst fs))" using ps(3) m by simp
  show "\<forall>f\<in>set fnames. files w (os_path_join dir f) \<noteq> None
          \<and> VStr (digest_of rt (files w) (os_path_join dir f))
              \<in> set (xs @ map VStr (map (digest_of rt (files w)) (map fst fs)))"
    using ps(6) m by simp
  show "files w1 = files w" by (rule ps(7))
  show "distinct (map (digest_of rt (files w)) (map fst fs))" using ps(4) m by simp
qed


lemma keeps_files_update_x: "keeps_files (update_x g)"
  by (auto simp: keeps_files_def update_x_def setattr_def object_setattr_def
      split: option.splits pyval.splits)

lemma keeps_files_failing: "keeps_files failing"
  by (simp add: keeps_files_def failing_def)

section \<open>The claims\<close>

text \<open>
  C6. Calling \<^verbatim>\<open>add_modules\<close> with a single name that resolves to a missing file
  raises \<^verbatim>\<open>IOError\<close>: \<^verbatim>\<open>calculate_hash\<close> fails before anything else happens, so
  the host (its \<^verbatim>\<open>__files__\<close> included) and the process-wide state are unchanged:
  no digest is recorded and no function is applied.
\<close>

theorem missing_file_raises_IOError:
  "files w (os_path_join dir f) = None \<Longrightarrow> add_modules rt dir [f] h w = (Some IOError, h, w)"
  by (simp add: add_modules_def load_loop_missing)

theorem missing_file_raises_IOError_witness:
  "files demo_world (os_path_join ''/cfg'' ''missing.cfg'') = None
   \<and> add_modules demo_rt ''/cfg'' [''missing.cfg''] (demo_host [] 0) demo_world
       = (Some IOError, demo_host [] 0, demo_world)"
proof -
  have h: "files demo_world (os_path_join ''/cfg'' ''missing.cfg'') = None"
    by (simp add: demo_world_def os_path_join_def)
  show ?thesis using h missing_file_raises_IOError [OF h] by simp
qed







text \<open>
  C7, as the claim states it, fails: the identifier is taken from the last
  component of the path alone, so two distinct paths with the same file name in
  different directories get the same identifier.
\<close>

theorem module_name_collision_counterexample:
  "''/a/cfg.py'' \<noteq> ''/b/cfg.py'' \<and> module_name_of ''/a/cfg.py'' = module_name_of ''/b/cfg.py''"
  by (simp add: module_name_of_def)

text \<open>
  C7, amended. The identifier the loader derives is the text of the last
  \<^verbatim>\<open>/\<close>-separated component of the path up to its first dot, and nothing else of
  the path enters it; a load for which a loader exists enters the unit in
  \<^verbatim>\<open>sys.modules\<close> under that identifier, replacing whatever unit was entered
  under it before.
\<close>

theorem module_name_from_file_name:
  "module_name_of p
     = takeWhile (\<lambda>c. c \<noteq> CHR ''.'') (rev (takeWhile (\<lambda>c. c \<noteq> CHR ''/'') (rev p)))
   \<and> (has_loader rt p \<longrightarrow>
        sys_modules (snd (import_from_filepath rt p w)) = (sys_modules w)(module_name_of p \<mapsto> p))"
  by (simp add: module_name_of_eq import_from_filepath_def Let_def exec_module_eq
      split: option.splits sum.splits)

theorem module_name_from_file_name_witness:
  "module_name_of ''/cfg/A.py'' = ''A''
   \<and> has_loader demo_rt ''/cfg/A.py''
   \<and> sys_modules (snd (import_from_filepath demo_rt ''/cfg/A.py'' (demo_world\<lparr>sys_modules := [''A'' \<mapsto> ''/old/A.py'']\<rparr>)))
       = [''A'' \<mapsto> ''/cfg/A.py'']"
proof -
  have h: "has_loader demo_rt ''/cfg/A.py''" by (simp add: demo_rt_def)
  have m: "module_name_of ''/cfg/A.py'' = ''A''" by (simp add: module_name_of_def)
  show ?thesis
    using h m module_name_from_file_name [of "''/cfg/A.py''" demo_rt
        "demo_world\<lparr>sys_modules := [''A'' \<mapsto> ''/old/A.py'']\<rparr>"]
    by simp
qed

text \<open>
  C2, as the claim states it, fails: \<^verbatim>\<open>import_from_filepath\<close> clears the registry
  before the load and after a normal return, with nothing in between that would
  run when \<^verbatim>\<open>exec_module\<close> raises. The example file \<^verbatim>\<open>C.py\<close> registers one function
  and then raises; after the failed load the registry still holds that function.
\<close>

theorem registry_after_failed_load_counterexample:
  "fst (import_from_filepath demo_rt ''/cfg/C.py'' demo_world) = Inl (Raised ''boom'')
   \<and> l (snd (import_from_filepath demo_rt ''/cfg/C.py'' demo_world)) = [incr_x]
   \<and> l (snd (import_from_filepath demo_rt ''/cfg/C.py'' demo_world)) \<noteq> []"
  by (simp add: import_from_filepath_def Let_def demo_rt_def demo_world_def demo_stmt_def
      exec_module_eq)

text \<open>
  C2, amended. After a load that returns normally, and after a load that fails
  because no loader accepts the file, because the file does not exist or because
  it has a syntax error, the registry is empty. After a load that fails with an
  exception raised while the file executes, the registry holds the functions
  registered before the raise. Every load clears the registry before it does
  anything else, so neither its result nor the state it leaves depends on what
  an earlier load left in the registry.
\<close>

theorem registry_after_load:
  "(\<forall>ret. fst (import_from_filepath rt p w) = Inr ret
       \<longrightarrow> l (snd (import_from_filepath rt p w)) = [])
   \<and> (\<not> has_loader rt p \<or> files w p = None
        \<or> (\<exists>src e. files w p = Some src \<and> py_compile rt src = Inl e)
       \<longrightarrow> l (snd (import_from_filepath rt p w)) = [])
   \<and> (\<forall>src body e. has_loader rt p \<and> files w p = Some src \<and> py_compile rt src = Inr body
         \<and> raised body = Some e
       \<longrightarrow> fst (import_from_filepath rt p w) = Inl e
           \<and> l (snd (import_from_filepath rt p w)) = registered body)
   \<and> import_from_filepath rt p (w\<lparr>l := leaked\<rparr>) = import_from_filepath rt p w"
  by (auto simp: import_from_filepath_def Let_def exec_module_eq split: option.splits sum.splits)

theorem registry_after_load_witness:
  "fst (import_from_filepath demo_rt ''/cfg/B.py'' demo_world) = Inr [incr_x, double_x]
   \<and> l (snd (import_from_filepath demo_rt ''/cfg/B.py'' demo_world)) = []
   \<and> files demo_world ''/cfg/missing.py'' = None
   \<and> l (snd (import_from_filepath demo_rt ''/cfg/missing.py'' demo_world)) = []
   \<and> has_loader demo_rt ''/cfg/C.py''
   \<and> files demo_world ''/cfg/C.py'' = Some ''ir''
   \<and> py_compile demo_rt ''ir'' = Inr [Def incr_x, Raise (Raised ''boom'')]
   \<and> raised [Def incr_x, Raise (Raised ''boom'')] = Some (Raised ''boom'')
   \<and> l (snd (import_from_filepath demo_rt ''/cfg/C.py'' demo_world)) = [incr_x]
   \<and> import_from_filepath demo_rt ''/cfg/B.py'' (demo_world\<lparr>l := [incr_x]\<rparr>)
       = import_from_filepath demo_rt ''/cfg/B.py'' demo_world"
proof -
  have b: "fst (import_from_filepath demo_rt ''/cfg/B.py'' demo_world) = Inr [incr_x, double_x]"
    by (simp add: import_from_filepath_def Let_def demo_rt_def demo_world_def demo_stmt_def
        exec_module_eq)
  have m: "files demo_world ''/cfg/missing.py'' = None"
    by (simp add: demo_world_def)
  have c: "has_loader demo_rt ''/cfg/C.py''" "files demo_world ''/cfg/C.py'' = Some ''ir''"
    "py_compile demo_rt ''ir'' = Inr [Def incr_x, Raise (Raised ''boom'')]"
    "raised [Def incr_x, Raise (Raised ''boom'')] = Some (Raised ''boom'')"
    by (simp_all add: demo_rt_def demo_world_def demo_stmt_def)
  have r: "registered [Def incr_x, Raise (Raised ''boom'')] = [incr_x]" by simp
  note t1 = registry_after_load [of demo_rt "''/cfg/B.py''" demo_world "[incr_x]"]
  note t2 = registry_after_load [of demo_rt "''/cfg/missing.py''" demo_world "[]"]
  note t3 = registry_after_load [of demo_rt "''/cfg/C.py''" demo_world "[]"]
  have 1: "l (snd (import_from_filepath demo_rt ''/cfg/B.py'' demo_world)) = []"
    using t1 b by blast
  have 2: "l (snd (import_from_filepath demo_rt ''/cfg/missing.py'' demo_world)) = []"
    using t2 m by blast
  have 3: "l (snd (import_from_filepath demo_rt ''/cfg/C.py'' demo_world)) = [incr_x]"
    using t3 c r by metis
  have 4: "import_from_filepath demo_rt ''/cfg/B.py'' (demo_world\<lparr>l := [incr_x]\<rparr>)
       = import_from_filepath demo_rt ''/cfg/B.py'' demo_world"
    using t1 by blast
  show ?thesis using b m c 1 2 3 4 by simp
qed

text \<open>
  C8, as the claim states it, fails in its second half: a file is skipped whenever
  the digest of its bytes is among the digests recorded on the host, whatever the
  bytes were at the call before. In the example, \<^verbatim>\<open>A.py\<close> is applied, its bytes
  change and it is applied again, and then its bytes change back. Between the
  second call and the third the bytes and the digest of the file have changed,
  but the third call finds the digest recorded by the first: it loads nothing and
  applies no function (\<^verbatim>\<open>x\<close> stays 16).
\<close>

theorem changed_bytes_not_reapplied_counterexample:
  "add_modules demo_rt ''/cfg'' [''A.py''] (demo_host [] 3) demo_world
     = (None, demo_host [VStr ''i''] 4, loaded_world)
   \<and> add_modules demo_rt ''/cfg'' [''A.py''] (demo_host [VStr ''i''] 4) changed_world
     = (None, demo_host [VStr ''i'', VStr ''dd''] 16, changed_world)
   \<and> files changed_world ''/cfg/A.py'' = Some ''dd''
   \<and> files loaded_world ''/cfg/A.py'' = Some ''i''
   \<and> calculate_hash demo_rt ''/cfg/A.py'' changed_world = Inr ''dd''
   \<and> calculate_hash demo_rt ''/cfg/A.py'' loaded_world = Inr ''i''
   \<and> add_modules demo_rt ''/cfg'' [''A.py''] (demo_host [VStr ''i'', VStr ''dd''] 16) loaded_world
     = (None, demo_host [VStr ''i'', VStr ''dd''] 16, loaded_world)"
proof -
  have 1: "add_modules demo_rt ''/cfg'' [''A.py''] (demo_host [] 3) demo_world
     = (None, demo_host [VStr ''i''] 4, loaded_world)"
    by (simp add: demo_eval loaded_world_def) (simp add: fun_eq_iff)
  have 2: "add_modules demo_rt ''/cfg'' [''A.py''] (demo_host [VStr ''i''] 4) changed_world
     = (None, demo_host [VStr ''i'', VStr ''dd''] 16, changed_world)"
    by (simp add: demo_eval loaded_world_def changed_world_def) (simp add: fun_eq_iff)
  have 3: "files changed_world ''/cfg/A.py'' = Some ''dd''"
    "files loaded_world ''/cfg/A.py'' = Some ''i''"
    "calculate_hash demo_rt ''/cfg/A.py'' changed_world = Inr ''dd''"
    "calculate_hash demo_rt ''/cfg/A.py'' loaded_world = Inr ''i''"
    by (simp_all add: demo_eval loaded_world_def changed_world_def)
  have 4: "add_modules demo_rt ''/cfg'' [''A.py''] (demo_host [VStr ''i'', VStr ''dd''] 16) loaded_world
     = (None, demo_host [VStr ''i'', VStr ''dd''] 16, loaded_world)"
    by (simp add: demo_eval loaded_world_def)
  show ?thesis using 1 2 3 4 by blast
qed

text \<open>
  C8, amended. Provided the digest object is a streaming one (feeding it two
  chunks in turn equals feeding it their concatenation), \<^verbatim>\<open>calculate_hash\<close>
  returns the same digest for any two files with the same bytes, and that digest
  is the one any positive chunk size would give. If the bytes of a file change
  between two calls of \<^verbatim>\<open>add_modules\<close> and the digest of the new bytes is not among
  the digests recorded on the host, the later call loads the file again, the path
  being the same: if the load fails its error propagates and the host is as it
  was; otherwise the new digest is recorded and the functions the load returns
  are applied.
\<close>

theorem digest_streaming_and_reapplication:
  assumes "\<forall>s a b. sha_update rt (sha_update rt s a) b = sha_update rt s (a @ b)"
    and "0 < n"
  shows "(files w1 p1 = Some bs \<and> files w2 p2 = Some bs
            \<longrightarrow> calculate_hash rt p1 w1 = calculate_hash rt p2 w2
                \<and> calculate_hash rt p1 w1 = Inr (hash_chunked rt n bs))
    \<and> (inst_dict h ''__files__'' = Some (VList xs)
         \<and> files w (os_path_join dir f) = Some bs'
         \<and> VStr (hash_chunked rt 4096 bs') \<notin> set xs
        \<longrightarrow> add_modules rt dir [f] h w =
              (case import_from_filepath rt (os_path_join dir f) w of
                 (Inl e, w') \<Rightarrow> (Some e, h, w')
               | (Inr ret, w') \<Rightarrow>
                   (case call_all ret (with_hashes h xs [hash_chunked rt 4096 bs']) of
                      (e, h2) \<Rightarrow> (e, h2, w'))))"
proof -
  have law: "\<And>s a b. sha_update rt (sha_update rt s a) b = sha_update rt s (a @ b)"
    using assms(1) by blast
  have "hash_chunked rt 4096 bs = hash_chunked rt n bs"
    using hash_chunked_stream [of rt 4096 bs, OF law] hash_chunked_stream [of rt n bs, OF law]
      assms(2) by simp
  then have 1: "files w1 p1 = Some bs \<and> files w2 p2 = Some bs
            \<longrightarrow> calculate_hash rt p1 w1 = calculate_hash rt p2 w2
                \<and> calculate_hash rt p1 w1 = Inr (hash_chunked rt n bs)"
    by (simp add: calculate_hash_def)
  have 2: "inst_dict h ''__files__'' = Some (VList xs)
         \<and> files w (os_path_join dir f) = Some bs'
         \<and> VStr (hash_chunked rt 4096 bs') \<notin> set xs
        \<longrightarrow> add_modules rt dir [f] h w =
              (case import_from_filepath rt (os_path_join dir f) w of
                 (Inl e, w') \<Rightarrow> (Some e, h, w')
               | (Inr ret, w') \<Rightarrow>
                   (case call_all ret (with_hashes h xs [hash_chunked rt 4096 bs']) of
                      (e, h2) \<Rightarrow> (e, h2, w')))"
  proof
    let ?p = "os_path_join dir f"
    assume a: "inst_dict h ''__files__'' = Some (VList xs)
         \<and> files w ?p = Some bs'
         \<and> VStr (hash_chunked rt 4096 bs') \<notin> set xs"
    then have l: "inst_dict h ''__files__'' = Some (VList xs)" and b: "files w ?p = Some bs'"
      by simp_all
    have d: "digest_of rt (files w) ?p = hash_chunked rt 4096 bs'"
      using b by (simp add: digest_of_def)
    have fresh: "VStr (digest_of rt (files w) ?p) \<notin> set xs"
      using a d by simp
    obtain r w' where imp: "import_from_filepath rt ?p w = (r, w')"
      by (cases "import_from_filepath rt ?p w") auto
    show "add_modules rt dir [f] h w =
              (case import_from_filepath rt ?p w of
                 (Inl e, w') \<Rightarrow> (Some e, h, w')
               | (Inr ret, w') \<Rightarrow>
                   (case call_all ret (with_hashes h xs [hash_chunked rt 4096 bs']) of
                      (e, h2) \<Rightarrow> (e, h2, w')))"
    proof (cases r)
      case (Inl e)
      then have "load_loop rt dir [f] [] h w = (Some e, [], h, w')"
        using load_loop_fail [OF b l fresh, of e w' "[]" "[]"] imp by simp
      then show ?thesis using imp Inl by (simp add: add_modules_def)
    next
      case (Inr ret)
      then have "load_loop rt dir [f] [] h w =
          (None, [(?p, ret)], with_hashes h xs [hash_chunked rt 4096 bs'], w')"
        using load_loop_load [OF b l fresh, of ret w' "[]" "[]"] imp d by simp
      then show ?thesis using imp Inr
        by (simp add: add_modules_def split: prod.splits option.splits)
    qed
  qed
  from 1 2 show ?thesis by blast
qed

theorem digest_streaming_and_reapplication_witness:
  "(\<forall>s a b. sha_update demo_rt (sha_update demo_rt s a) b = sha_update demo_rt s (a @ b))
   \<and> files demo_world ''/cfg/B.py'' = Some ''id''
   \<and> files demo_world ''/cfg/E.py'' = Some ''id''
   \<and> calculate_hash demo_rt ''/cfg/B.py'' demo_world = calculate_hash demo_rt ''/cfg/E.py'' demo_world
   \<and> calculate_hash demo_rt ''/cfg/B.py'' demo_world = Inr (hash_chunked demo_rt 1 ''id'')
   \<and> inst_dict (demo_host [VStr ''i''] 3) ''__files__'' = Some (VList [VStr ''i''])
   \<and> files changed_world (os_path_join ''/cfg'' ''A.py'') = Some ''dd''
   \<and> VStr (hash_chunked demo_rt 4096 ''dd'') \<notin> set [VStr ''i'']
   \<and> import_from_filepath demo_rt (os_path_join ''/cfg'' ''A.py'') changed_world
       = (Inr [double_x, double_x], changed_world)
   \<and> call_all [double_x, double_x] (with_hashes (demo_host [VStr ''i''] 3) [VStr ''i''] [hash_chunked demo_rt 4096 ''dd''])
       = (None, demo_host [VStr ''i'', VStr ''dd''] 12)
   \<and> add_modules demo_rt ''/cfg'' [''A.py''] (demo_host [VStr ''i''] 3) changed_world
       = (None, demo_host [VStr ''i'', VStr ''dd''] 12, changed_world)"
proof -
  have law: "\<forall>s a b. sha_update demo_rt (sha_update demo_rt s a) b = sha_update demo_rt s (a @ b)"
    by (simp add: demo_rt_def)
  have a: "files demo_world ''/cfg/B.py'' = Some ''id''"
    "files demo_world ''/cfg/E.py'' = Some ''id''"
    "inst_dict (demo_host [VStr ''i''] 3) ''__files__'' = Some (VList [VStr ''i''])"
    "files changed_world (os_path_join ''/cfg'' ''A.py'') = Some ''dd''"
    "VStr (hash_chunked demo_rt 4096 ''dd'') \<notin> set [VStr ''i'']"
    by (simp_all add: demo_eval loaded_world_def changed_world_def)
  have i: "import_from_filepath demo_rt (os_path_join ''/cfg'' ''A.py'') changed_world
       = (Inr [double_x, double_x], changed_world)"
    by (simp add: demo_eval loaded_world_def changed_world_def)
  have c: "call_all [double_x, double_x] (with_hashes (demo_host [VStr ''i''] 3) [VStr ''i''] [hash_chunked demo_rt 4096 ''dd''])
       = (None, demo_host [VStr ''i'', VStr ''dd''] 12)"
    by (simp add: demo_eval with_hashes_def) (simp add: fun_eq_iff)
  have pos: "0 < (1::nat)"
    by simp
  note t = digest_streaming_and_reapplication [OF law, of 1 demo_world "''/cfg/B.py''" "''id''"
      demo_world "''/cfg/E.py''" "demo_host [VStr ''i''] 3" "[VStr ''i'']" changed_world
      "''/cfg''" "''A.py''" "''dd''", OF pos]
  have 1: "calculate_hash demo_rt ''/cfg/B.py'' demo_world = calculate_hash demo_rt ''/cfg/E.py'' demo_world"
    "calculate_hash demo_rt ''/cfg/B.py'' demo_world = Inr (hash_chunked demo_rt 1 ''id'')"
    using t a(1) a(2) by blast+
  have "add_modules demo_rt ''/cfg'' [''A.py''] (demo_host [VStr ''i''] 3) changed_world =
      (case import_from_filepath demo_rt (os_path_join ''/cfg'' ''A.py'') changed_world of
         (Inl e, w') \<Rightarrow> (Some e, demo_host [VStr ''i''] 3, w')
       | (Inr ret, w') \<Rightarrow>
           (case call_all ret (with_hashes (demo_host [VStr ''i''] 3) [VStr ''i'']
                   [hash_chunked demo_rt 4096 ''dd'']) of
              (e, h2) \<Rightarrow> (e, h2, w')))"
    using t a(3) a(4) a(5) by blast
  then have "add_modules demo_rt ''/cfg'' [''A.py''] (demo_host [VStr ''i''] 3) changed_world =
      (case call_all [double_x, double_x] (with_hashes (demo_host [VStr ''i''] 3) [VStr ''i'']
              [hash_chunked demo_rt 4096 ''dd'']) of
         (e, h2) \<Rightarrow> (e, h2, changed_world))"
    unfolding i by (simp only: prod.case sum.case)
  then have 2: "add_modules demo_rt ''/cfg'' [''A.py''] (demo_host [VStr ''i''] 3) changed_world
       = (None, demo_host [VStr ''i'', VStr ''dd''] 12, changed_world)"
    unfolding c by (simp only: prod.case)
  show ?thesis
    using law a 1 i c 2 by blast
qed

text \<open>
  C5. When the first loop of \<^verbatim>\<open>add_modules\<close> has processed all the files, no
  configuration function has been invoked: the host differs from the one
  \<^verbatim>\<open>add_modules\<close> was called on in the digests appended to \<^verbatim>\<open>__files__\<close> only. The
  collected entries are the files that were loaded, in the order the files were
  given, each with the functions it defines in the order of their definitions.
  All the files have been processed by then: every file of the call exists and
  its digest is in \<^verbatim>\<open>__files__\<close>, recorded before the call or for one of the
  collected entries, whose digests were not recorded before and differ from one
  another.
  The functions are then invoked one after the other in that order, each on the
  host alone.
\<close>

theorem load_phase_then_apply_in_order:
  assumes "inst_dict h ''__files__'' = Some (VList xs)"
    and "load_loop rt dir fnames [] h w = (None, fs, h1, w1)"
  shows "h1 = with_hashes h xs (map (digest_of rt (files w)) (map fst fs))
    \<and> subseq (map fst fs) (map (os_path_join dir) fnames)
    \<and> distinct (map fst fs)
    \<and> distinct (map (digest_of rt (files w)) (map fst fs))
    \<and> (\<forall>(p, funs)\<in>set fs. funs = funcs_of rt (files w) p \<and> loads_ok rt (files w) p
           \<and> VStr (digest_of rt (files w) p) \<notin> set xs)
    \<and> (\<forall>f\<in>set fnames. files w (os_path_join dir f) \<noteq> None
          \<and> VStr (digest_of rt (files w) (os_path_join dir f))
              \<in> set (xs @ map VStr (map (digest_of rt (files w)) (map fst fs))))
    \<and> add_modules rt dir fnames h w =
         (case call_all (concat (map snd fs)) h1 of (e, h2) \<Rightarrow> (e, h2, w1))"
  using load_loop_success_nil(1-5,7) [OF assms] add_modules_loaded [OF assms] by blast

theorem load_phase_then_apply_in_order_witness:
  "inst_dict (demo_host [] 0) ''__files__'' = Some (VList [])
   \<and> load_loop demo_rt ''/cfg'' [''A.py'', ''B.py''] [] (demo_host [] 0) demo_world
       = (None, [(''/cfg/A.py'', [incr_x]), (''/cfg/B.py'', [incr_x, double_x])],
          demo_host [VStr ''i'', VStr ''id''] 0,
          demo_world\<lparr>sys_modules := [''A'' \<mapsto> ''/cfg/A.py'', ''B'' \<mapsto> ''/cfg/B.py'']\<rparr>)
   \<and> call_all [incr_x, incr_x, double_x] (demo_host [VStr ''i'', VStr ''id''] 0)
       = (None, demo_host [VStr ''i'', VStr ''id''] 4)
   \<and> add_modules demo_rt ''/cfg'' [''A.py'', ''B.py''] (demo_host [] 0) demo_world
       = (None, demo_host [VStr ''i'', VStr ''id''] 4,
          demo_world\<lparr>sys_modules := [''A'' \<mapsto> ''/cfg/A.py'', ''B'' \<mapsto> ''/cfg/B.py'']\<rparr>)"
proof -
  have a: "inst_dict (demo_host [] 0) ''__files__'' = Some (VList [])"
    by (simp add: demo_host_def)
  have b: "load_loop demo_rt ''/cfg'' [''A.py'', ''B.py''] [] (demo_host [] 0) demo_world
       = (None, [(''/cfg/A.py'', [incr_x]), (''/cfg/B.py'', [incr_x, double_x])],
          demo_host [VStr ''i'', VStr ''id''] 0,
          demo_world\<lparr>sys_modules := [''A'' \<mapsto> ''/cfg/A.py'', ''B'' \<mapsto> ''/cfg/B.py'']\<rparr>)"
    by (simp add: demo_eval) (simp add: fun_eq_iff)
  have c: "call_all [incr_x, incr_x, double_x] (demo_host [VStr ''i'', VStr ''id''] 0)
       = (None, demo_host [VStr ''i'', VStr ''id''] 4)"
    by (simp add: demo_eval) (simp add: fun_eq_iff)
  have t: "add_modules demo_rt ''/cfg'' [''A.py'', ''B.py''] (demo_host [] 0) demo_world =
      (case call_all (concat (map snd [(''/cfg/A.py'', [incr_x]), (''/cfg/B.py'', [incr_x, double_x])]))
              (demo_host [VStr ''i'', VStr ''id''] 0) of
         (e, h2) \<Rightarrow>
           (e, h2, demo_world\<lparr>sys_modules := [''A'' \<mapsto> ''/cfg/A.py'', ''B'' \<mapsto> ''/cfg/B.py'']\<rparr>))"
    using load_phase_then_apply_in_order [OF a b] by blast
  have cc: "concat (map snd [(''/cfg/A.py'', [incr_x]), (''/cfg/B.py'', [incr_x, double_x])])
      = [incr_x, incr_x, double_x]"
    by simp
  have d: "add_modules demo_rt ''/cfg'' [''A.py'', ''B.py''] (demo_host [] 0) demo_world
       = (None, demo_host [VStr ''i'', VStr ''id''] 4,
          demo_world\<lparr>sys_modules := [''A'' \<mapsto> ''/cfg/A.py'', ''B'' \<mapsto> ''/cfg/B.py'']\<rparr>)"
    using t unfolding cc c by simp
  show ?thesis
    using a b c d by blast
qed

text \<open>
  C1, as the claim states it, fails: the functions of a file are invoked by the
  second loop only, which is never reached when a load raises in the first loop.
  In the example, \<^verbatim>\<open>A.py\<close> loads and \<^verbatim>\<open>missing.py\<close> fails; the digest of \<^verbatim>\<open>A.py\<close>
  is recorded, but its function, which would set \<^verbatim>\<open>x\<close> to 1, has not been
  applied when the error propagates.
\<close>

theorem partial_failure_counterexample:
  "add_modules demo_rt ''/cfg'' [''A.py'', ''missing.py''] (demo_host [] 0) demo_world
     = (Some IOError, demo_host [VStr ''i''] 0,
        demo_world\<lparr>sys_modules := [''A'' \<mapsto> ''/cfg/A.py'']\<rparr>)
   \<and> funcs_of demo_rt (files demo_world) ''/cfg/A.py'' = [incr_x]
   \<and> incr_x (demo_host [VStr ''i''] 0) = (None, demo_host [VStr ''i''] 1)
   \<and> demo_host [VStr ''i''] 0 \<noteq> demo_host [VStr ''i''] 1"
proof -
  have 1: "add_modules demo_rt ''/cfg'' [''A.py'', ''missing.py''] (demo_host [] 0) demo_world
     = (Some IOError, demo_host [VStr ''i''] 0,
        demo_world\<lparr>sys_modules := [''A'' \<mapsto> ''/cfg/A.py'']\<rparr>)"
    by (simp add: demo_eval) (simp add: fun_eq_iff)
  have 2: "funcs_of demo_rt (files demo_world) ''/cfg/A.py'' = [incr_x]"
    by (simp add: funcs_of_def demo_world_def demo_rt_sel demo_stmt_def)
  have 3: "incr_x (demo_host [VStr ''i''] 0) = (None, demo_host [VStr ''i''] 1)"
    by (simp add: demo_eval) (simp add: fun_eq_iff)
  have "inst_dict (demo_host [VStr ''i''] 0) ''x'' \<noteq> inst_dict (demo_host [VStr ''i''] 1) ''x''"
    by (simp add: demo_host_def)
  then have 4: "demo_host [VStr ''i''] 0 \<noteq> demo_host [VStr ''i''] 1"
    by auto
  show ?thesis using 1 2 3 4 by blast
qed

text \<open>
  C1, amended. If the first loop has processed the files 1..N-1 and the N-th file
  then fails, in \<^verbatim>\<open>calculate_hash\<close> or in its load, the error propagates from
  \<^verbatim>\<open>add_modules\<close> whatever files follow. At that moment the digest of each of the
  files 1..N-1 is recorded on the host, and the host differs from the one
  \<^verbatim>\<open>add_modules\<close> was called on in the digests appended to \<^verbatim>\<open>__files__\<close> only: no
  configuration function has been applied, and nothing is rolled back.
\<close>

theorem partial_failure_records_digests_only:
  assumes "inst_dict h ''__files__'' = Some (VList xs)"
    and "load_loop rt dir pre [] h w = (None, fs1, h1, w1)"
    and "calculate_hash rt (os_path_join dir f) w1 = Inl e
         \<or> (\<exists>d. calculate_hash rt (os_path_join dir f) w1 = Inr d
                \<and> hash_in_files d h1 = Inr False
                \<and> fst (import_from_filepath rt (os_path_join dir f) w1) = Inl e)"
  shows "fst (add_modules rt dir (pre @ f # post) h w) = Some e
    \<and> fst (snd (add_modules rt dir (pre @ f # post) h w)) = h1
    \<and> h1 = with_hashes h xs (map (digest_of rt (files w)) (map fst fs1))
    \<and> (\<forall>g\<in>set pre. hash_in_files (digest_of rt (files w) (os_path_join dir g)) h1 = Inr True)"
proof -
  note s = load_loop_success_nil [OF assms(1) assms(2)]
  have h1: "inst_dict h1 ''__files__''
      = Some (VList (xs @ map VStr (map (digest_of rt (files w)) (map fst fs1))))"
    unfolding s(4) by simp
  have rec: "\<forall>g\<in>set pre. hash_in_files (digest_of rt (files w) (os_path_join dir g)) h1 = Inr True"
    using s(5) hash_in_files_list [OF h1] by simp
  have "\<exists>w2. load_loop rt dir (f # post) fs1 h1 w1 = (Some e, fs1, h1, w2)"
    using assms(3)
  proof
    assume "calculate_hash rt (os_path_join dir f) w1 = Inl e"
    then show ?thesis by (simp add: load_loop.simps(2))
  next
    assume "\<exists>d. calculate_hash rt (os_path_join dir f) w1 = Inr d
                \<and> hash_in_files d h1 = Inr False
                \<and> fst (import_from_filepath rt (os_path_join dir f) w1) = Inl e"
    then show ?thesis
      by (cases "import_from_filepath rt (os_path_join dir f) w1")
         (auto simp: load_loop.simps(2))
  qed
  then obtain w2 where "load_loop rt dir (f # post) fs1 h1 w1 = (Some e, fs1, h1, w2)" ..
  then have "add_modules rt dir (pre @ f # post) h w = (Some e, h1, w2)"
    using assms(2) by (simp add: add_modules_def load_loop_append)
  then show ?thesis using s(4) rec by simp
qed

theorem partial_failure_records_digests_only_witness:
  "inst_dict (demo_host [] 0) ''__files__'' = Some (VList [])
   \<and> load_loop demo_rt ''/cfg'' [''A.py''] [] (demo_host [] 0) demo_world
       = (None, [(''/cfg/A.py'', [incr_x])], demo_host [VStr ''i''] 0,
          demo_world\<lparr>sys_modules := [''A'' \<mapsto> ''/cfg/A.py'']\<rparr>)
   \<and> calculate_hash demo_rt (os_path_join ''/cfg'' ''C.py'')
         (demo_world\<lparr>sys_modules := [''A'' \<mapsto> ''/cfg/A.py'']\<rparr>) = Inr ''ir''
   \<and> hash_in_files ''ir'' (demo_host [VStr ''i''] 0) = Inr False
   \<and> fst (import_from_filepath demo_rt (os_path_join ''/cfg'' ''C.py'')
         (demo_world\<lparr>sys_modules := [''A'' \<mapsto> ''/cfg/A.py'']\<rparr>)) = Inl (Raised ''boom'')
   \<and> fst (add_modules demo_rt ''/cfg'' ([''A.py''] @ ''C.py'' # [''B.py'']) (demo_host [] 0) demo_world)
       = Some (Raised ''boom'')
   \<and> fst (snd (add_modules demo_rt ''/cfg'' ([''A.py''] @ ''C.py'' # [''B.py'']) (demo_host [] 0) demo_world))
       = demo_host [VStr ''i''] 0
   \<and> hash_in_files (digest_of demo_rt (files demo_world) (os_path_join ''/cfg'' ''A.py''))
         (demo_host [VStr ''i''] 0) = Inr True"
proof -
  have a: "inst_dict (demo_host [] 0) ''__files__'' = Some (VList [])"
    by (simp add: demo_host_def)
  have b: "load_loop demo_rt ''/cfg'' [''A.py''] [] (demo_host [] 0) demo_world
       = (None, [(''/cfg/A.py'', [incr_x])], demo_host [VStr ''i''] 0,
          demo_world\<lparr>sys_modules := [''A'' \<mapsto> ''/cfg/A.py'']\<rparr>)"
    by (simp add: demo_eval) (simp add: fun_eq_iff)
  have c1: "calculate_hash demo_rt (os_path_join ''/cfg'' ''C.py'')
         (demo_world\<lparr>sys_modules := [''A'' \<mapsto> ''/cfg/A.py'']\<rparr>) = Inr ''ir''"
    by (simp add: demo_eval)
  have c2: "hash_in_files ''ir'' (demo_host [VStr ''i''] 0) = Inr False"
    by (simp add: demo_eval)
  have c3: "fst (import_from_filepath demo_rt (os_path_join ''/cfg'' ''C.py'')
         (demo_world\<lparr>sys_modules := [''A'' \<mapsto> ''/cfg/A.py'']\<rparr>)) = Inl (Raised ''boom'')"
    by (simp add: demo_eval)
  have c: "calculate_hash demo_rt (os_path_join ''/cfg'' ''C.py'')
             (demo_world\<lparr>sys_modules := [''A'' \<mapsto> ''/cfg/A.py'']\<rparr>) = Inl (Raised ''boom'')
         \<or> (\<exists>d. calculate_hash demo_rt (os_path_join ''/cfg'' ''C.py'')
                  (demo_world\<lparr>sys_modules := [''A'' \<mapsto> ''/cfg/A.py'']\<rparr>) = Inr d
                \<and> hash_in_files d (demo_host [VStr ''i''] 0) = Inr False
                \<and> fst (import_from_filepath demo_rt (os_path_join ''/cfg'' ''C.py'')
                     (demo_world\<lparr>sys_modules := [''A'' \<mapsto> ''/cfg/A.py'']\<rparr>)) = Inl (Raised ''boom''))"
    using c1 c2 c3 by blast
  have g: "''A.py'' \<in> set [''A.py'']" by simp
  from partial_failure_records_digests_only [OF a b c, of "[''B.py'']"] g
  have t: "fst (add_modules demo_rt ''/cfg'' ([''A.py''] @ ''C.py'' # [''B.py'']) (demo_host [] 0) demo_world)
       = Some (Raised ''boom'')"
    "fst (snd (add_modules demo_rt ''/cfg'' ([''A.py''] @ ''C.py'' # [''B.py'']) (demo_host [] 0) demo_world))
       = demo_host [VStr ''i''] 0"
    "hash_in_files (digest_of demo_rt (files demo_world) (os_path_join ''/cfg'' ''A.py''))
         (demo_host [VStr ''i''] 0) = Inr True"
    by blast+
  show ?thesis using a b c1 c2 c3 t by blast
qed

text \<open>
  C4. Take a file that exists and loads, whose digest is not yet recorded on the
  host and whose functions leave \<^verbatim>\<open>__files__\<close> as they find it. The first call of
  \<^verbatim>\<open>add_modules\<close> with that file records the digest and makes one pass over the
  file's functions. In the state the first call leaves, the digest is in
  \<^verbatim>\<open>__files__\<close> and the file is unchanged, so the second call skips the file:
  it loads nothing and leaves the host and the process-wide state as they are.
\<close>

theorem second_apply_is_skipped:
  assumes "inst_dict h ''__files__'' = Some (VList xs)"
    and "files w (os_path_join dir f) = Some bs"
    and "VStr (hash_chunked rt 4096 bs) \<notin> set xs"
    and "loads_ok rt (files w) (os_path_join dir f)"
    and "\<forall>func\<in>set (funcs_of rt (files w) (os_path_join dir f)). keeps_files func"
    and "add_modules rt dir [f] h w = (r, h1, w1)"
  shows "(r, h1) = call_all (funcs_of rt (files w) (os_path_join dir f))
                      (with_hashes h xs [hash_chunked rt 4096 bs])
    \<and> hash_in_files (hash_chunked rt 4096 bs) h1 = Inr True
    \<and> files w1 = files w
    \<and> add_modules rt dir [f] h1 w1 = (None, h1, w1)"
proof -
  let ?p = "os_path_join dir f"
  have d: "digest_of rt (files w) ?p = hash_chunked rt 4096 bs"
    using assms(2) by (simp add: digest_of_def)
  have fresh: "VStr (digest_of rt (files w) ?p) \<notin> set xs"
    using assms(3) d by simp
  note first = add_modules_fresh_single [OF assms(1) assms(2) fresh assms(4)]
  have c: "call_all (funcs_of rt (files w) ?p) (with_hashes h xs [hash_chunked rt 4096 bs]) = (r, h1)"
    and w1: "w1 = w\<lparr>l := [], sys_modules := (sys_modules w)(module_name_of ?p \<mapsto> ?p)\<rparr>"
    using first assms(6) d by (auto split: prod.splits)
  have "inst_dict h1 ''__files__''
      = inst_dict (with_hashes h xs [hash_chunked rt 4096 bs]) ''__files__''"
    using call_all_keeps_files [OF assms(5), of "with_hashes h xs [hash_chunked rt 4096 bs]"] c
    by simp
  then have h1: "inst_dict h1 ''__files__'' = Some (VList (xs @ map VStr [hash_chunked rt 4096 bs]))"
    by simp
  have fw: "files w1 = files w" using w1 by simp
  have "\<forall>g\<in>set [f]. files w1 (os_path_join dir g) \<noteq> None
          \<and> VStr (digest_of rt (files w1) (os_path_join dir g))
              \<in> set (xs @ map VStr [hash_chunked rt 4096 bs])"
    using assms(2) d fw by simp
  from add_modules_skip_all [OF h1 this]
  have second: "add_modules rt dir [f] h1 w1 = (None, h1, w1)" .
  have "hash_in_files (hash_chunked rt 4096 bs) h1 = Inr True"
    using hash_in_files_list [OF h1] by simp
  then show ?thesis using c fw second by simp
qed

theorem second_apply_is_skipped_witness:
  "inst_dict (demo_host [] 0) ''__files__'' = Some (VList [])
   \<and> files demo_world (os_path_join ''/cfg'' ''A.py'') = Some ''i''
   \<and> VStr (hash_chunked demo_rt 4096 ''i'') \<notin> set []
   \<and> loads_ok demo_rt (files demo_world) (os_path_join ''/cfg'' ''A.py'')
   \<and> funcs_of demo_rt (files demo_world) (os_path_join ''/cfg'' ''A.py'') = [incr_x]
   \<and> keeps_files incr_x
   \<and> add_modules demo_rt ''/cfg'' [''A.py''] (demo_host [] 0) demo_world
       = (None, demo_host [VStr ''i''] 1, demo_world\<lparr>sys_modules := [''A'' \<mapsto> ''/cfg/A.py'']\<rparr>)
   \<and> add_modules demo_rt ''/cfg'' [''A.py''] (demo_host [VStr ''i''] 1)
         (demo_world\<lparr>sys_modules := [''A'' \<mapsto> ''/cfg/A.py'']\<rparr>)
       = (None, demo_host [VStr ''i''] 1, demo_world\<lparr>sys_modules := [''A'' \<mapsto> ''/cfg/A.py'']\<rparr>)"
proof -
  have a1: "inst_dict (demo_host [] 0) ''__files__'' = Some (VList [])"
    by (simp add: demo_host_def)
  have a2: "files demo_world (os_path_join ''/cfg'' ''A.py'') = Some ''i''"
    by (simp add: demo_world_def os_path_join_def)
  have a3: "VStr (hash_chunked demo_rt 4096 ''i'') \<notin> set []"
    by simp
  have a4: "loads_ok demo_rt (files demo_world) (os_path_join ''/cfg'' ''A.py'')"
    by (simp add: loads_ok_def demo_world_def os_path_join_def demo_rt_sel demo_stmt_def)
  have fo: "funcs_of demo_rt (files demo_world) (os_path_join ''/cfg'' ''A.py'') = [incr_x]"
    by (simp add: funcs_of_def demo_world_def os_path_join_def demo_rt_sel demo_stmt_def)
  have k: "keeps_files incr_x"
    unfolding incr_x_def by (rule keeps_files_update_x)
  have a5: "\<forall>func\<in>set (funcs_of demo_rt (files demo_world) (os_path_join ''/cfg'' ''A.py'')).
      keeps_files func"
    using fo k by simp
  have a6: "add_modules demo_rt ''/cfg'' [''A.py''] (demo_host [] 0) demo_world
       = (None, demo_host [VStr ''i''] 1, demo_world\<lparr>sys_modules := [''A'' \<mapsto> ''/cfg/A.py'']\<rparr>)"
    by (simp add: demo_eval) (simp add: fun_eq_iff)
  from second_apply_is_skipped [OF a1 a2 a3 a4 a5 a6]
  have t: "add_modules demo_rt ''/cfg'' [''A.py''] (demo_host [VStr ''i''] 1)
         (demo_world\<lparr>sys_modules := [''A'' \<mapsto> ''/cfg/A.py'']\<rparr>)
       = (None, demo_host [VStr ''i''] 1, demo_world\<lparr>sys_modules := [''A'' \<mapsto> ''/cfg/A.py'']\<rparr>)"
    by blast
  show ?thesis using a1 a2 a3 a4 fo k a6 t by blast
qed

text \<open>
  C9. When the first loop of \<^verbatim>\<open>add_modules\<close> is over, the digest of every file of
  the call is in \<^verbatim>\<open>__files__\<close>, and only then are the collected functions invoked.
  Whatever the outcome of the second loop, in particular when a function raises
  and later functions are never run, the digests of all the files of the call
  are still recorded afterwards (the functions leaving \<^verbatim>\<open>__files__\<close> as they
  find it), and an identical call made next skips every file: it returns
  normally and leaves the host and the process-wide state as they are, so the
  functions that were not run are not run then either.
\<close>

theorem digests_recorded_before_functions_run:
  assumes "inst_dict h ''__files__'' = Some (VList xs)"
    and "load_loop rt dir fnames [] h w = (None, fs, h1, w1)"
    and "\<forall>funs\<in>snd ` set fs. \<forall>func\<in>set funs. keeps_files func"
    and "add_modules rt dir fnames h w = (r, h2, w2)"
  shows "(\<forall>f\<in>set fnames. hash_in_files (digest_of rt (files w) (os_path_join dir f)) h1 = Inr True)
    \<and> (r, h2) = call_all (concat (map snd fs)) h1
    \<and> (\<forall>f\<in>set fnames. hash_in_files (digest_of rt (files w) (os_path_join dir f)) h2 = Inr True)
    \<and> add_modules rt dir fnames h2 w2 = (None, h2, w2)"
proof -
  note s = load_loop_success_nil [OF assms(1) assms(2)]
  let ?ys = "xs @ map VStr (map (digest_of rt (files w)) (map fst fs))"
  have h1: "inst_dict h1 ''__files__'' = Some (VList ?ys)"
    unfolding s(4) by simp
  have c: "call_all (concat (map snd fs)) h1 = (r, h2)" and w2: "w2 = w1"
    using add_modules_loaded [OF assms(1) assms(2)] assms(4) by (auto split: prod.splits)
  have "\<forall>func\<in>set (concat (map snd fs)). keeps_files func"
    using assms(3) by auto
  from call_all_keeps_files [OF this, of h1] c
  have h2: "inst_dict h2 ''__files__'' = Some (VList ?ys)"
    using h1 by simp
  have fw: "files w2 = files w" using s(6) w2 by simp
  have all: "\<forall>f\<in>set fnames. files w2 (os_path_join dir f) \<noteq> None
          \<and> VStr (digest_of rt (files w2) (os_path_join dir f)) \<in> set ?ys"
    using s(5) fw by simp
  have 1: "\<forall>f\<in>set fnames. hash_in_files (digest_of rt (files w) (os_path_join dir f)) h1 = Inr True"
    using s(5) hash_in_files_list [OF h1] by simp
  have 3: "\<forall>f\<in>set fnames. hash_in_files (digest_of rt (files w) (os_path_join dir f)) h2 = Inr True"
    using s(5) hash_in_files_list [OF h2] by simp
  have 4: "add_modules rt dir fnames h2 w2 = (None, h2, w2)"
    using h2 all by (rule add_modules_skip_all)
  show ?thesis using 1 c 3 4 by simp
qed

theorem digests_recorded_before_functions_run_witness:
  "inst_dict (demo_host [] 0) ''__files__'' = Some (VList [])
   \<and> load_loop demo_rt ''/cfg'' [''D.py'', ''A.py''] [] (demo_host [] 0) demo_world
       = (None, [(''/cfg/D.py'', [failing, incr_x]), (''/cfg/A.py'', [incr_x])],
          demo_host [VStr ''fi'', VStr ''i''] 0,
          demo_world\<lparr>sys_modules := [''D'' \<mapsto> ''/cfg/D.py'', ''A'' \<mapsto> ''/cfg/A.py'']\<rparr>)
   \<and> keeps_files failing \<and> keeps_files incr_x
   \<and> add_modules demo_rt ''/cfg'' [''D.py'', ''A.py''] (demo_host [] 0) demo_world
       = (Some (Raised ''failed''), demo_host [VStr ''fi'', VStr ''i''] 0,
          demo_world\<lparr>sys_modules := [''D'' \<mapsto> ''/cfg/D.py'', ''A'' \<mapsto> ''/cfg/A.py'']\<rparr>)
   \<and> hash_in_files (digest_of demo_rt (files demo_world) (os_path_join ''/cfg'' ''A.py''))
         (demo_host [VStr ''fi'', VStr ''i''] 0) = Inr True
   \<and> add_modules demo_rt ''/cfg'' [''D.py'', ''A.py''] (demo_host [VStr ''fi'', VStr ''i''] 0)
         (demo_world\<lparr>sys_modules := [''D'' \<mapsto> ''/cfg/D.py'', ''A'' \<mapsto> ''/cfg/A.py'']\<rparr>)
       = (None, demo_host [VStr ''fi'', VStr ''i''] 0,
          demo_world\<lparr>sys_modules := [''D'' \<mapsto> ''/cfg/D.py'', ''A'' \<mapsto> ''/cfg/A.py'']\<rparr>)"
proof -
  have a1: "inst_dict (demo_host [] 0) ''__files__'' = Some (VList [])"
    by (simp add: demo_host_def)
  have a2: "load_loop demo_rt ''/cfg'' [''D.py'', ''A.py''] [] (demo_host [] 0) demo_world
       = (None, [(''/cfg/D.py'', [failing, incr_x]), (''/cfg/A.py'', [incr_x])],
          demo_host [VStr ''fi'', VStr ''i''] 0,
          demo_world\<lparr>sys_modules := [''D'' \<mapsto> ''/cfg/D.py'', ''A'' \<mapsto> ''/cfg/A.py'']\<rparr>)"
    by (simp add: demo_eval) (simp add: fun_eq_iff)
  have k: "keeps_files failing" "keeps_files incr_x"
    unfolding incr_x_def by (rule keeps_files_failing, rule keeps_files_update_x)
  have a3: "\<forall>funs\<in>snd ` set [(''/cfg/D.py'', [failing, incr_x]), (''/cfg/A.py'', [incr_x])].
      \<forall>func\<in>set funs. keeps_files func"
    using k by simp
  have a4: "add_modules demo_rt ''/cfg'' [''D.py'', ''A.py''] (demo_host [] 0) demo_world
       = (Some (Raised ''failed''), demo_host [VStr ''fi'', VStr ''i''] 0,
          demo_world\<lparr>sys_modules := [''D'' \<mapsto> ''/cfg/D.py'', ''A'' \<mapsto> ''/cfg/A.py'']\<rparr>)"
    by (simp add: demo_eval) (simp add: fun_eq_iff)
  have g: "''A.py'' \<in> set [''D.py'', ''A.py'']" by simp
  from digests_recorded_before_functions_run [OF a1 a2 a3 a4] g
  have t: "hash_in_files (digest_of demo_rt (files demo_world) (os_path_join ''/cfg'' ''A.py''))
         (demo_host [VStr ''fi'', VStr ''i''] 0) = Inr True"
    "add_modules demo_rt ''/cfg'' [''D.py'', ''A.py''] (demo_host [VStr ''fi'', VStr ''i''] 0)
         (demo_world\<lparr>sys_modules := [''D'' \<mapsto> ''/cfg/D.py'', ''A'' \<mapsto> ''/cfg/A.py'']\<rparr>)
       = (None, demo_host [VStr ''fi'', VStr ''i''] 0,
          demo_world\<lparr>sys_modules := [''D'' \<mapsto> ''/cfg/D.py'', ''A'' \<mapsto> ''/cfg/A.py'']\<rparr>)"
    by blast+
  show ?thesis using a1 a2 k a4 t by blast
qed

end
